theory Spec2Isabelle
  imports Complex_Main "HOL-Library.Multiset"
begin

section \<open>The URL shortener of \<^verbatim>\<open>src/index.ts\<close>\<close>

text \<open>
  The program is five HTTP handlers over one MongoDB collection. Each handler is embedded
  as a function from its inputs (path parameter, parsed body, environment) and the
  collection to the response and the collection afterwards.

  What lies outside \<^verbatim>\<open>index.ts\<close> is fixed as follows.
  \<^item> The collection is a list of documents in insertion order. \<^verbatim>\<open>findOne\<close>,
    \<^verbatim>\<open>updateOne\<close> and \<^verbatim>\<open>deleteOne\<close> act on the first document that matches the
    filter, \<^verbatim>\<open>insertOne\<close> appends; this is the documented behaviour of the
    database for an unsorted single-document operation on a collection without a
    secondary index.
  \<^item> A handler is followed from the point where \<^verbatim>\<open>c.req.json\<close> has returned the parsed
    body and \<^verbatim>\<open>const { url } = ...\<close> has read its field. The type argument
    \<^verbatim>\<open>{ url: string }\<close> is erased when the program runs, so \<open>url\<close> is any JSON value,
    or \<^verbatim>\<open>undefined\<close> when the field is absent. Database calls are taken to succeed.
  \<^item> \<^verbatim>\<open>Math.random\<close>, \<^verbatim>\<open>new Date()\<close> and the identifier that the driver
    attaches to an inserted document are inputs of the handler (its environment).
  \<^item> Numbers that the program computes with are IEEE doubles, with the rounding of the
    product written out.
  \<^item> \<^verbatim>\<open>c.redirect\<close> writes its argument, converted to a string, into the
    \<^verbatim>\<open>Location\<close> header of the response. The header store of the Fetch standard strips
    leading and trailing HTTP whitespace from a value and throws a \<^verbatim>\<open>TypeError\<close> for a
    value that contains NUL, CR or LF; the framework answers an uncaught exception with
    the text \<^verbatim>\<open>Internal Server Error\<close> and status 500.
  \<^item> A string is a list of 8-bit characters: the JavaScript strings whose code units are all
    below 256.
\<close>

subsection \<open>JSON values\<close>

text \<open>
  What \<^verbatim>\<open>JSON.parse\<close> can return. A number is a double: a finite value, given by the
  rational it denotes (the two zeros are not told apart), or an infinity, which
  \<^verbatim>\<open>JSON.parse\<close> gives for a literal beyond the range; it never gives NaN.
\<close>

datatype jsnumber = Finite rat | PlusInfinity | MinusInfinity

datatype json =
    JNull
  | JBool bool
  | JNum jsnumber
  | JStr string
  | JArr "json list"
  | JObj "(string \<times> json) list"

subsection \<open>Doubles\<close>

text \<open>
  A finite, non-negative double is \<open>mantissa * 2 ^ exponent\<close> with a mantissa below
  \<open>2 ^ 53\<close> and an exponent from \<open>-1074\<close> to \<open>971\<close>. This is all that
  \<^verbatim>\<open>Math.random() * chars.length\<close> needs: both factors are finite and not negative.
\<close>

record double =
  mantissa :: nat
  exponent :: int

definition is_double :: "double \<Rightarrow> bool" where
  "is_double d = (mantissa d < 2 ^ 53 \<and> - 1074 \<le> exponent d \<and> exponent d \<le> 971)"

definition double_val :: "double \<Rightarrow> rat" where
  "double_val d =
     (if 0 \<le> exponent d then of_nat (mantissa d) * 2 ^ nat (exponent d)
      else of_nat (mantissa d) / 2 ^ nat (- exponent d))"

definition double_of_nat :: "nat \<Rightarrow> double" where
  "double_of_nat n = \<lparr>mantissa = n, exponent = 0\<rparr>"

text \<open>The number of low bits that a product mantissa has beyond 53.\<close>

function excess_bits :: "nat \<Rightarrow> nat" where
  "excess_bits p = (if p < 2 ^ 53 then 0 else Suc (excess_bits (p div 2)))"
  by pat_completeness auto
termination
  by (relation "measure (\<lambda>p. p)") auto

text \<open>\<open>p / 2 ^ s\<close> rounded to the nearest integer, a tie to the even one.\<close>

definition round_shift :: "nat \<Rightarrow> nat \<Rightarrow> nat" where
  "round_shift p s =
     (let q = p div 2 ^ s; r = p mod 2 ^ s
      in if 2 * r < 2 ^ s then q
         else if 2 ^ s < 2 * r then q + 1
         else if even q then q else q + 1)"

text \<open>
  The product of two such doubles, rounded to nearest, ties to even: the exact product
  \<open>p * 2 ^ e\<close> loses the \<open>s\<close> low bits that do not fit 53 bits or lie below
  \<open>2 ^ -1074\<close>, in one rounding; a mantissa rounded up to \<open>2 ^ 53\<close> is written with 52
  bits. (A product of \<open>2 ^ 1024\<close> or more is \<^verbatim>\<open>Infinity\<close> in JavaScript;
  \<^verbatim>\<open>charAt\<close> gives the empty string for it as for every index beyond the string, so
  the loop below is the same there.)
\<close>

definition double_mul :: "double \<Rightarrow> double \<Rightarrow> double" where
  "double_mul a b =
     (let p = mantissa a * mantissa b;
          e = exponent a + exponent b;
          s = max (excess_bits p) (nat (- 1074 - e));
          m = round_shift p s
      in if m = 2 ^ 53 then \<lparr>mantissa = 2 ^ 52, exponent = e + int s + 1\<rparr>
         else \<lparr>mantissa = m, exponent = e + int s\<rparr>)"

text \<open>\<^verbatim>\<open>Math.floor\<close> of such a double.\<close>

definition double_floor :: "double \<Rightarrow> int" where
  "double_floor d =
     (if 0 \<le> exponent d then int (mantissa d * 2 ^ nat (exponent d))
      else int (mantissa d div 2 ^ nat (- exponent d)))"

subsection \<open>Data model\<close>

text \<open>
  \<^verbatim>\<open>interface UrlMapping { _id?: string; shortCode: string; url: string;
  clicks: number; createdAt: Date }\<close>.
  The field \<^verbatim>\<open>_id\<close> is written \<open>oid\<close>. The field \<open>url\<close> holds whatever value the
  handlers store there, which need not be a string. The counter \<open>clicks\<close> is an integer
  (the handlers only ever store \<open>0\<close> and add \<open>1\<close>); \<open>createdAt\<close> is the timestamp in
  milliseconds.
\<close>

record UrlMapping =
  oid :: "string option"
  shortCode :: string
  url :: json
  clicks :: int
  createdAt :: int

type_synonym collection = "UrlMapping list"

text \<open>The environment of one request.\<close>

record env =
  random :: "nat \<Rightarrow> double"  \<comment> \<open>the value of the \<open>i\<close>-th call of \<^verbatim>\<open>Math.random()\<close>\<close>
  now :: int                \<comment> \<open>\<^verbatim>\<open>new Date()\<close>\<close>
  newId :: string           \<comment> \<open>the \<^verbatim>\<open>_id\<close> generated on insertion\<close>

text \<open>
  The bodies that the handlers pass to \<^verbatim>\<open>c.json\<close>, and the three kinds of response
  (\<^verbatim>\<open>c.json(body, status)\<close>, \<^verbatim>\<open>c.text(text, status)\<close>, \<^verbatim>\<open>c.redirect(location)\<close>)
  with their status codes; \<^verbatim>\<open>c.json\<close> and \<^verbatim>\<open>c.text\<close> default to 200,
  \<^verbatim>\<open>c.redirect\<close> to 302.
\<close>

datatype json_body =
    ErrorBody string
  | MessageBody string
  | CreatedBody string json
  | StatsBody string json int int

datatype response =
    Json json_body nat
  | Text string nat
  | Redirect string nat

fun status :: "response \<Rightarrow> nat" where
  "status (Json b s) = s"
| "status (Text t s) = s"
| "status (Redirect l s) = s"

subsection \<open>The collection operations\<close>

definition findOne :: "string \<Rightarrow> collection \<Rightarrow> UrlMapping option" where
  "findOne code coll = find (\<lambda>m. shortCode m = code) coll"

text \<open>\<^verbatim>\<open>insertOne\<close> gives the document an \<^verbatim>\<open>_id\<close> when it has none.\<close>

definition insertOne :: "string \<Rightarrow> UrlMapping \<Rightarrow> collection \<Rightarrow> collection" where
  "insertOne fresh doc coll =
     coll @ [case oid doc of None \<Rightarrow> doc\<lparr>oid := Some fresh\<rparr> | Some _ \<Rightarrow> doc]"

text \<open>
  \<^verbatim>\<open>updateOne\<close> applies the update to the first match and reports
  \<^verbatim>\<open>matchedCount\<close>; \<^verbatim>\<open>deleteOne\<close> removes the first match and reports
  \<^verbatim>\<open>deletedCount\<close>.
\<close>

fun updateOne :: "string \<Rightarrow> (UrlMapping \<Rightarrow> UrlMapping) \<Rightarrow> collection \<Rightarrow> nat \<times> collection" where
  "updateOne code upd [] = (0, [])"
| "updateOne code upd (m # ms) =
     (if shortCode m = code then (1, upd m # ms)
      else (case updateOne code upd ms of (n, ms') \<Rightarrow> (n, m # ms')))"

fun deleteOne :: "string \<Rightarrow> collection \<Rightarrow> nat \<times> collection" where
  "deleteOne code [] = (0, [])"
| "deleteOne code (m # ms) =
     (if shortCode m = code then (1, ms)
      else (case deleteOne code ms of (n, ms') \<Rightarrow> (n, m # ms')))"

text \<open>The update documents \<^verbatim>\<open>{ $inc: { clicks: 1 } }\<close> and \<^verbatim>\<open>{ $set: { url } }\<close>.\<close>

definition inc_clicks :: "UrlMapping \<Rightarrow> UrlMapping" where
  "inc_clicks m = m\<lparr>clicks := clicks m + 1\<rparr>"

definition set_url :: "json \<Rightarrow> UrlMapping \<Rightarrow> UrlMapping" where
  "set_url u m = m\<lparr>url := u\<rparr>"

subsection \<open>\<^verbatim>\<open>generateShortCode\<close>\<close>

definition chars :: string where
  "chars = ''abcdefghijklmnopqrstuvwxyzABCDEFGHIJKLMNOPQRSTUVWXYZ0123456789''"

text \<open>\<^verbatim>\<open>String.prototype.charAt\<close> returns the empty string for an index out of range.\<close>

definition charAt :: "string \<Rightarrow> int \<Rightarrow> string" where
  "charAt s i = (if 0 \<le> i \<and> i < int (length s) then [s ! nat i] else [])"

text \<open>
  The loop \<^verbatim>\<open>for (let i = 0; i < length; i++) result += chars.charAt(Math.floor(
  Math.random() * chars.length))\<close>, entered at \<open>i\<close> with \<open>result\<close>.
\<close>

function generateShortCode_loop :: "(nat \<Rightarrow> double) \<Rightarrow> nat \<Rightarrow> nat \<Rightarrow> string \<Rightarrow> string" where
  "generateShortCode_loop rnd len i result =
     (if i < len
      then generateShortCode_loop rnd len (i + 1)
             (result @ charAt chars
                (double_floor (double_mul (rnd i) (double_of_nat (length chars)))))
      else result)"
  by pat_completeness auto
termination
  by (relation "measure (\<lambda>(rnd, len, i, result). len - i)") auto

definition generateShortCode :: "(nat \<Rightarrow> double) \<Rightarrow> nat \<Rightarrow> string" where
  "generateShortCode rnd len = generateShortCode_loop rnd len 0 []"

subsection \<open>The handlers\<close>

text \<open>
  \<^verbatim>\<open>!url\<close>, where \<open>None\<close> is \<^verbatim>\<open>undefined\<close>: true for \<^verbatim>\<open>undefined\<close>,
  \<^verbatim>\<open>null\<close>, \<^verbatim>\<open>false\<close>, zero and the empty string; every array and object is
  truthy.
\<close>

fun js_not :: "json option \<Rightarrow> bool" where
  "js_not None = True"
| "js_not (Some JNull) = True"
| "js_not (Some (JBool b)) = (\<not> b)"
| "js_not (Some (JNum n)) = (n = Finite 0)"
| "js_not (Some (JStr s)) = (s = [])"
| "js_not (Some (JArr xs)) = False"
| "js_not (Some (JObj fs)) = False"

text \<open>
  \<^verbatim>\<open>String(v)\<close>: a string is itself; the text that JavaScript gives for a value of
  another kind is the parameter \<open>str\<close>.
\<close>

definition js_String :: "(json \<Rightarrow> string) \<Rightarrow> json \<Rightarrow> string" where
  "js_String str v = (case v of JStr s \<Rightarrow> s | _ \<Rightarrow> str v)"

text \<open>
  The header store: HTTP whitespace is tab, LF, CR and space; a value is stored with
  the whitespace at its ends removed, and refused when it then contains NUL, LF or CR.
\<close>

definition http_whitespace :: "char \<Rightarrow> bool" where
  "http_whitespace c = (c = CHR 0x09 \<or> c = CHR 0x0A \<or> c = CHR 0x0D \<or> c = CHR 0x20)"

definition normalize_header_value :: "string \<Rightarrow> string" where
  "normalize_header_value s = rev (dropWhile http_whitespace (rev (dropWhile http_whitespace s)))"

definition valid_header_value :: "string \<Rightarrow> bool" where
  "valid_header_value s = list_all (\<lambda>c. c \<noteq> CHR 0x00 \<and> c \<noteq> CHR 0x0A \<and> c \<noteq> CHR 0x0D) s"

text \<open>
  \<^verbatim>\<open>c.redirect(location)\<close> inside a handler: the response with status 302 and the
  \<^verbatim>\<open>Location\<close> header, or the framework's answer to the \<^verbatim>\<open>TypeError\<close>.
\<close>

definition hono_redirect :: "string \<Rightarrow> response" where
  "hono_redirect location =
     (let v = normalize_header_value location
      in if valid_header_value v then Redirect v 302
         else Text ''Internal Server Error'' 500)"

definition err_url_required :: string where
  "err_url_required = ''El campo '' @ [CHR 0x22] @ ''url'' @ [CHR 0x22] @ '' es obligatorio.''"

definition err_not_found :: string where
  "err_not_found = ''C'' @ [CHR 0xF3] @ ''digo corto no encontrado.''"

definition text_not_found :: string where
  "text_not_found = ''C'' @ [CHR 0xF3] @ ''digo corto no encontrado''"

definition msg_updated :: string where
  "msg_updated = ''URL actualizada correctamente.''"

definition msg_deleted :: string where
  "msg_deleted = ''URL eliminada correctamente.''"

text \<open>\<^verbatim>\<open>app.post("/api/v1/shorten")\<close>\<close>

definition post_shorten :: "env \<Rightarrow> json option \<Rightarrow> collection \<Rightarrow> response \<times> collection" where
  "post_shorten e body_url coll =
     (if js_not body_url then (Json (ErrorBody err_url_required) 400, coll)
      else
        let u = the body_url;
            code = generateShortCode (random e) 6;
            newMapping = \<lparr>oid = None, shortCode = code, url = u, clicks = 0, createdAt = now e\<rparr>
        in (Json (CreatedBody code u) 200, insertOne (newId e) newMapping coll))"

text \<open>\<^verbatim>\<open>app.get("/api/v1/shorten/:shortCode")\<close>\<close>

definition get_redirect :: "(json \<Rightarrow> string) \<Rightarrow> string \<Rightarrow> collection \<Rightarrow> response \<times> collection" where
  "get_redirect str code coll =
     (case findOne code coll of
        None \<Rightarrow> (Text text_not_found 404, coll)
      | Some mapping \<Rightarrow>
          (let coll' = snd (updateOne code inc_clicks coll)
           in (hono_redirect (js_String str (url mapping)), coll')))"

text \<open>\<^verbatim>\<open>app.put("/api/v1/shorten/:shortCode")\<close>\<close>

definition put_shorten :: "string \<Rightarrow> json option \<Rightarrow> collection \<Rightarrow> response \<times> collection" where
  "put_shorten code body_url coll =
     (if js_not body_url then (Json (ErrorBody err_url_required) 400, coll)
      else
        case updateOne code (set_url (the body_url)) coll of
          (matchedCount, coll') \<Rightarrow>
            if matchedCount = 0 then (Json (ErrorBody err_not_found) 404, coll')
            else (Json (MessageBody msg_updated) 200, coll'))"

text \<open>\<^verbatim>\<open>app.delete("/api/v1/shorten/:shortCode")\<close>\<close>

definition delete_shorten :: "string \<Rightarrow> collection \<Rightarrow> response \<times> collection" where
  "delete_shorten code coll =
     (case deleteOne code coll of
        (deletedCount, coll') \<Rightarrow>
          if deletedCount = 0 then (Json (ErrorBody err_not_found) 404, coll')
          else (Json (MessageBody msg_deleted) 200, coll'))"

text \<open>\<^verbatim>\<open>app.get("/api/v1/shorten/:shortCode/stats")\<close>\<close>

definition get_stats :: "string \<Rightarrow> collection \<Rightarrow> response \<times> collection" where
  "get_stats code coll =
     (case findOne code coll of
        None \<Rightarrow> (Json (ErrorBody err_not_found) 404, coll)
      | Some mapping \<Rightarrow>
          (Json (StatsBody (shortCode mapping) (url mapping) (clicks mapping) (createdAt mapping)) 200,
           coll))"

text \<open>\<^verbatim>\<open>app.get("/")\<close>\<close>

definition get_root :: "collection \<Rightarrow> response \<times> collection" where
  "get_root coll = (Text ''Hello Hono!'' 200, coll)"

subsection \<open>Sequences of requests\<close>

text \<open>
  The routes of the application that touch the collection, with their inputs, and the
  collection after serving a sequence of requests one after the other. A store state is
  reachable when it is \<open>serve str reqs []\<close> for some \<open>reqs\<close>: the collection starts
  empty and changes only through the handlers.
\<close>

datatype request =
    Create env "json option"
  | Visit string
  | Update string "json option"
  | Delete string
  | Stats string
  | Root

fun handle :: "(json \<Rightarrow> string) \<Rightarrow> request \<Rightarrow> collection \<Rightarrow> response \<times> collection" where
  "handle str (Create e body_url) coll = post_shorten e body_url coll"
| "handle str (Visit code) coll = get_redirect str code coll"
| "handle str (Update code body_url) coll = put_shorten code body_url coll"
| "handle str (Delete code) coll = delete_shorten code coll"
| "handle str (Stats code) coll = get_stats code coll"
| "handle str Root coll = get_root coll"

fun serve :: "(json \<Rightarrow> string) \<Rightarrow> request list \<Rightarrow> collection \<Rightarrow> collection" where
  "serve str [] coll = coll"
| "serve str (r # rs) coll = serve str rs (snd (handle str r coll))"

subsection \<open>Notions used in the statements\<close>

text \<open>The alphanumeric characters \<open>a-z\<close>, \<open>A-Z\<close>, \<open>0-9\<close>, by character code.\<close>

definition alnum :: "char \<Rightarrow> bool" where
  "alnum c = (let n = (of_char c :: nat) in
     (97 \<le> n \<and> n \<le> 122) \<or> (65 \<le> n \<and> n \<le> 90) \<or> (48 \<le> n \<and> n \<le> 57))"

text \<open>How many documents of the collection carry a short code.\<close>

definition count_code :: "string \<Rightarrow> collection \<Rightarrow> nat" where
  "count_code code coll = length (filter (\<lambda>m. shortCode m = code) coll)"

subsection \<open>Example data\<close>

text \<open>
  Two environments whose random source returns \<open>1/2\<close> at every call, so that both
  generate the code \<open>FFFFFF\<close>; a collection in which the code \<open>Ab3dE9\<close> occurs
  twice and the code \<open>Zz0000\<close> once; the double \<open>0.5161290322580645\<close>, whose product
  with 62 is rounded up to 32; a url with a line feed inside; and a conversion to
  strings that stands for \<^verbatim>\<open>String\<close> in the examples, none of which applies it.
\<close>

definition example_half :: double where
  "example_half = \<lparr>mantissa = 1, exponent = - 1\<rparr>"

definition example_env1 :: env where
  "example_env1 = \<lparr>random = (\<lambda>_. example_half), now = 1700000000000, newId = ''id1''\<rparr>"

definition example_env2 :: env where
  "example_env2 = \<lparr>random = (\<lambda>_. example_half), now = 1700000000777, newId = ''id2''\<rparr>"

definition example_m1 :: UrlMapping where
  "example_m1 = \<lparr>oid = Some ''id1'', shortCode = ''Ab3dE9'', url = JStr ''https://example.com'',
     clicks = 0, createdAt = 1700000000000\<rparr>"

definition example_m2 :: UrlMapping where
  "example_m2 = \<lparr>oid = Some ''id2'', shortCode = ''Zz0000'', url = JStr ''https://example.org'',
     clicks = 7, createdAt = 1700000000500\<rparr>"

definition example_m3 :: UrlMapping where
  "example_m3 = \<lparr>oid = Some ''id3'', shortCode = ''Ab3dE9'', url = JStr ''https://example.net'',
     clicks = 3, createdAt = 1700000000900\<rparr>"

definition example_store :: collection where
  "example_store = [example_m2, example_m1, example_m3]"

definition example_double :: double where
  "example_double = \<lparr>mantissa = 1162219258676257, exponent = - 51\<rparr>"

definition example_lf_url :: string where
  "example_lf_url = ''https://example.com/a'' @ [CHR 0x0A] @ ''b''"

definition example_str :: "json \<Rightarrow> string" where
  "example_str v = []"

section \<open>Properties of the collection operations\<close>

lemma findOne_None_iff: "findOne code coll = None \<longleftrightarrow> code \<notin> shortCode ` set coll"
  by (auto simp: findOne_def find_None_iff)

lemma updateOne_no_match:
  "code \<notin> shortCode ` set coll \<Longrightarrow> updateOne code upd coll = (0, coll)"
  by (induction coll) auto

lemma deleteOne_no_match:
  "code \<notin> shortCode ` set coll \<Longrightarrow> deleteOne code coll = (0, coll)"
  by (induction coll) auto

lemma first_match:
  "code \<in> shortCode ` set coll \<Longrightarrow>
   \<exists>i<length coll. shortCode (coll ! i) = code \<and> (\<forall>j<i. shortCode (coll ! j) \<noteq> code) \<and>
     findOne code coll = Some (coll ! i) \<and>
     (\<forall>upd. updateOne code upd coll = (1, coll[i := upd (coll ! i)])) \<and>
     deleteOne code coll = (1, take i coll @ drop (Suc i) coll)"
proof (induction coll)
  case Nil
  then show ?case by simp
next
  case (Cons m ms)
  show ?case
  proof (cases "shortCode m = code")
    case True
    then have "0 < length (m # ms) \<and> shortCode ((m # ms) ! 0) = code \<and> (\<forall>j<0. shortCode ((m # ms) ! j) \<noteq> code) \<and>
     findOne code (m # ms) = Some ((m # ms) ! 0) \<and>
     (\<forall>upd. updateOne code upd (m # ms) = (1, (m # ms)[0 := upd ((m # ms) ! 0)])) \<and>
     deleteOne code (m # ms) = (1, take 0 (m # ms) @ drop (Suc 0) (m # ms))"
      by (simp add: findOne_def)
    then show ?thesis by blast
  next
    case False
    with Cons.prems have "code \<in> shortCode ` set ms" by auto
    from Cons.IH[OF this] obtain i where i: "i < length ms" "shortCode (ms ! i) = code"
      "\<forall>j<i. shortCode (ms ! j) \<noteq> code" "findOne code ms = Some (ms ! i)"
      "\<forall>upd. updateOne code upd ms = (1, ms[i := upd (ms ! i)])"
      "deleteOne code ms = (1, take i ms @ drop (Suc i) ms)" by blast
    have "\<forall>j<Suc i. shortCode ((m # ms) ! j) \<noteq> code"
      using i(3) False by (auto simp: less_Suc_eq_0_disj)
    with i False have "Suc i < length (m # ms) \<and> shortCode ((m # ms) ! Suc i) = code \<and> (\<forall>j<Suc i. shortCode ((m # ms) ! j) \<noteq> code) \<and>
     findOne code (m # ms) = Some ((m # ms) ! Suc i) \<and>
     (\<forall>upd. updateOne code upd (m # ms) = (1, (m # ms)[Suc i := upd ((m # ms) ! Suc i)])) \<and>
     deleteOne code (m # ms) = (1, take (Suc i) (m # ms) @ drop (Suc (Suc i)) (m # ms))"
      by (simp add: findOne_def)
    then show ?thesis by blast
  qed
qed

section \<open>Properties of \<^verbatim>\<open>generateShortCode\<close>\<close>

declare excess_bits.simps [simp del]
declare generateShortCode_loop.simps [simp del]

lemma excess_bits_le: "p < 2 ^ (53 + n) \<Longrightarrow> excess_bits p \<le> n"
proof (induction n arbitrary: p)
  case 0
  then show ?case by (simp add: excess_bits.simps[of p])
next
  case (Suc n)
  show ?case
  proof (cases "p < 2 ^ 53")
    case True
    then show ?thesis by (simp add: excess_bits.simps[of p])
  next
    case False
    have "(2::nat) ^ (53 + Suc n) = 2 ^ (53 + n) * 2"
      by (simp only: add_Suc_right power_Suc mult.commute)
    with Suc.prems have "p < 2 ^ (53 + n) * 2" by (simp only:)
    then have "p div 2 < 2 ^ (53 + n)" by (rule less_mult_imp_div_less)
    from Suc.IH[OF this] False show ?thesis by (simp add: excess_bits.simps[of p])
  qed
qed

lemma round_shift_upper: "round_shift p s * 2 ^ s \<le> p + 2 ^ s div 2"
proof -
  define q where "q = p div 2 ^ s"
  define r where "r = p mod 2 ^ s"
  have p: "p = q * 2 ^ s + r" unfolding q_def r_def by (rule div_mult_mod_eq[symmetric])
  have lo: "q * 2 ^ s \<le> p + 2 ^ s div 2" using p by simp
  have hi: "(q + 1) * 2 ^ s \<le> p + 2 ^ s div 2" if "2 ^ s \<le> 2 * r"
  proof -
    have "(q + 1) * 2 ^ s = q * 2 ^ s + 2 ^ s" by (simp add: algebra_simps)
    moreover have "(2::nat) ^ s \<le> r + 2 ^ s div 2" using that by linarith
    ultimately show ?thesis using p by linarith
  qed
  show ?thesis
    unfolding round_shift_def Let_def q_def[symmetric] r_def[symmetric]
    using lo hi by auto
qed

lemma double_floor_less:
  assumes "exponent d = int s - int k" and "mantissa d * 2 ^ s < N * 2 ^ k"
  shows "double_floor d < int N"
proof (cases "k \<le> s")
  case True
  then have e: "0 \<le> exponent d" "nat (exponent d) = s - k" using assms(1) by auto
  have "(2::nat) ^ (s - k) * 2 ^ k = 2 ^ s"
    using True by (simp add: power_add[symmetric])
  then have "mantissa d * 2 ^ (s - k) * 2 ^ k = mantissa d * 2 ^ s"
    by (simp only: mult.assoc)
  with assms(2) have "mantissa d * 2 ^ (s - k) * 2 ^ k < N * 2 ^ k" by (simp only:)
  then have "mantissa d * 2 ^ (s - k) < N" by simp
  then have "int (mantissa d * 2 ^ (s - k)) < int N" by (simp only: of_nat_less_iff)
  moreover have "double_floor d = int (mantissa d * 2 ^ (s - k))"
    by (simp only: double_floor_def e if_True)
  ultimately show ?thesis by (simp only:)
next
  case False
  then have e: "\<not> 0 \<le> exponent d" "nat (- exponent d) = k - s" using assms(1) by auto
  have "(2::nat) ^ (k - s) * 2 ^ s = 2 ^ k"
    using False by (simp add: power_add[symmetric])
  then have "N * 2 ^ k = N * 2 ^ (k - s) * 2 ^ s"
    by (simp only: mult.assoc)
  with assms(2) have "mantissa d * 2 ^ s < N * 2 ^ (k - s) * 2 ^ s" by (simp only:)
  then have "mantissa d < N * 2 ^ (k - s)" by simp
  then have "mantissa d div 2 ^ (k - s) < N"
    by (simp add: less_mult_imp_div_less)
  then have "int (mantissa d div 2 ^ (k - s)) < int N" by (simp only: of_nat_less_iff)
  moreover have "double_floor d = int (mantissa d div 2 ^ (k - s))"
    by (simp only: double_floor_def e if_False)
  ultimately show ?thesis by (simp only:)
qed

lemma random_index:
  assumes "is_double r" and "double_val r < 1"
  shows "0 \<le> double_floor (double_mul r (double_of_nat (length chars))) \<and>
         double_floor (double_mul r (double_of_nat (length chars))) < int (length chars)"
proof -
  have len: "length chars = 62" by (simp add: chars_def)
  have nonneg: "0 \<le> double_floor d" for d by (simp add: double_floor_def)
  define m where "m = mantissa r"
  define e where "e = exponent r"
  define p where "p = m * 62"
  define s where "s = excess_bits p"
  have m53: "m < 2 ^ 53" and e_lo: "- 1074 \<le> e"
    using assms(1) by (simp_all add: is_double_def m_def e_def)
  have sub: "nat (- 1074 - (e + 0)) = 0" using e_lo by simp
  have "p < 2 ^ (53 + 6)" using m53 by (simp add: p_def)
  then have s6: "s \<le> 6" unfolding s_def by (rule excess_bits_le)
  have mul: "double_mul r (double_of_nat 62) =
      (if round_shift p s = 2 ^ 53 then \<lparr>mantissa = 2 ^ 52, exponent = e + int s + 1\<rparr>
       else \<lparr>mantissa = round_shift p s, exponent = e + int s\<rparr>)"
    using sub by (simp add: double_mul_def double_of_nat_def Let_def m_def[symmetric]
        e_def[symmetric] p_def[symmetric] s_def[symmetric])
  have "double_floor (double_mul r (double_of_nat 62)) < 62"
  proof (cases "m = 0")
    case True
    then have "p = 0" by (simp add: p_def)
    then have "s = 0" by (simp add: s_def excess_bits.simps[of 0])
    have "round_shift p s = 0" using \<open>p = 0\<close> by (simp add: round_shift_def)
    then show ?thesis using mul by (simp add: double_floor_def)
  next
    case False
    have eneg: "e < 0"
    proof (rule ccontr)
      assume "\<not> e < 0"
      then have "double_val r = of_nat m * 2 ^ nat e"
        by (simp add: double_val_def m_def e_def)
      moreover have "(1::rat) \<le> of_nat m * 2 ^ nat e"
      proof -
        have "(1::rat) \<le> of_nat m" using False by simp
        moreover have "(1::rat) \<le> 2 ^ nat e" by simp
        ultimately show ?thesis by (metis mult_mono zero_le_one of_nat_0_le_iff mult_1)
      qed
      ultimately show False using assms(2) by simp
    qed
    define k where "k = nat (- e)"
    have ek: "e = - int k" using eneg by (simp add: k_def)
    have "double_val r = of_nat m / 2 ^ k"
      using eneg by (simp add: double_val_def m_def e_def k_def)
    with assms(2) have "(of_nat m :: rat) < 2 ^ k" by (simp add: divide_less_eq)
    then have "(of_nat m :: rat) < of_nat (2 ^ k)" by simp
    then have mk: "m < 2 ^ k" by (simp only: of_nat_less_iff)
    then have "m + 1 \<le> 2 ^ k" by simp
    then have "(m + 1) * 62 \<le> 2 ^ k * 62" by (rule mult_le_mono1)
    then have pk: "p + 62 \<le> 62 * 2 ^ k" by (simp add: p_def algebra_simps)
    have "(2::nat) ^ s \<le> 2 ^ 6" using s6 by (rule power_increasing) simp
    then have "(2::nat) ^ s div 2 \<le> 32" by simp
    with round_shift_upper[of p s] pk
    have M: "round_shift p s * 2 ^ s < 62 * 2 ^ k" by linarith
    show ?thesis
    proof (cases "round_shift p s = 2 ^ 53")
      case True
      let ?d = "\<lparr>mantissa = 2 ^ 52, exponent = e + int s + 1\<rparr>"
      have "exponent ?d = int (s + 1) - int k" using ek by simp
      moreover have "mantissa ?d * 2 ^ (s + 1) < 62 * 2 ^ k" using M True by simp
      ultimately have "double_floor ?d < int 62" by (rule double_floor_less)
      with mul True show ?thesis by simp
    next
      case F: False
      let ?d = "\<lparr>mantissa = round_shift p s, exponent = e + int s\<rparr>"
      have "exponent ?d = int s - int k" using ek by simp
      moreover have "mantissa ?d * 2 ^ s < 62 * 2 ^ k" using M by simp
      ultimately have "double_floor ?d < int 62" by (rule double_floor_less)
      with mul F show ?thesis by simp
    qed
  qed
  with nonneg show ?thesis by (simp add: len)
qed

lemma charAt_random:
  assumes "is_double r" and "double_val r < 1"
  shows "\<exists>c \<in> set chars.
    charAt chars (double_floor (double_mul r (double_of_nat (length chars)))) = [c]"
proof -
  define j where "j = double_floor (double_mul r (double_of_nat (length chars)))"
  from random_index[OF assms] have j: "0 \<le> j" "j < int (length chars)"
    unfolding j_def by auto
  then have "nat j < length chars" by simp
  then have "chars ! nat j \<in> set chars" by simp
  moreover have "charAt chars j = [chars ! nat j]" using j by (simp add: charAt_def)
  ultimately show ?thesis unfolding j_def by blast
qed

lemma generateShortCode_loop_props:
  "(\<forall>k. i \<le> k \<and> k < len \<longrightarrow> is_double (rnd k) \<and> double_val (rnd k) < 1) \<Longrightarrow>
   length (generateShortCode_loop rnd len i result) = length result + (len - i) \<and>
   set (generateShortCode_loop rnd len i result) \<subseteq> set result \<union> set chars"
proof (induction rnd len i result rule: generateShortCode_loop.induct)
  case (1 rnd len i result)
  show ?case
  proof (cases "i < len")
    case False
    then show ?thesis by (simp add: generateShortCode_loop.simps[of rnd len i result])
  next
    case True
    with "1.prems" have "is_double (rnd i)" "double_val (rnd i) < 1" by auto
    from charAt_random[OF this] obtain c where
      c: "c \<in> set chars"
      "charAt chars (double_floor (double_mul (rnd i) (double_of_nat (length chars)))) = [c]"
      by blast
    have "\<forall>k. i + 1 \<le> k \<and> k < len \<longrightarrow> is_double (rnd k) \<and> double_val (rnd k) < 1"
      using "1.prems" by auto
    from "1.IH"[OF True this] c True show ?thesis
      by (auto simp: generateShortCode_loop.simps[of rnd len i result])
  qed
qed

lemma generateShortCode_props:
  "\<forall>i<len. is_double (rnd i) \<and> double_val (rnd i) < 1 \<Longrightarrow>
   length (generateShortCode rnd len) = len \<and> set (generateShortCode rnd len) \<subseteq> set chars"
  using generateShortCode_loop_props[of 0 len rnd "[]"] by (simp add: generateShortCode_def)

lemma chars_alnum: "\<forall>c \<in> set chars. alnum c"
  by (simp add: chars_def alnum_def)

lemma chars_62: "length chars = 62 \<and> distinct chars"
  by (simp add: chars_def)

section \<open>Deleting, counting, and the store after each handler\<close>

lemma count_code_pos_iff: "1 \<le> count_code code coll \<longleftrightarrow> code \<in> shortCode ` set coll"
proof -
  have "0 < length (filter (\<lambda>m. shortCode m = code) coll) \<longleftrightarrow> (\<exists>m \<in> set coll. shortCode m = code)"
    by (simp add: filter_empty_conv)
  then show ?thesis by (auto simp: count_code_def Suc_le_eq)
qed

lemma deleteOne_count:
  "code \<in> shortCode ` set coll \<Longrightarrow>
   count_code code (snd (deleteOne code coll)) = count_code code coll - 1"
  by (induction coll) (auto simp: count_code_def split: prod.splits)

lemma deleteOne_others:
  "filter (\<lambda>m. shortCode m \<noteq> code) (snd (deleteOne code coll)) =
   filter (\<lambda>m. shortCode m \<noteq> code) coll"
  by (induction coll) (auto split: prod.splits)

lemma updateOne_cases:
  "snd (updateOne code upd coll) = coll \<or>
   (\<exists>i<length coll. snd (updateOne code upd coll) = coll[i := upd (coll ! i)])"
proof (cases "code \<in> shortCode ` set coll")
  case True
  from first_match[OF True] show ?thesis by (metis snd_conv)
next
  case False
  then show ?thesis by (simp add: updateOne_no_match)
qed

lemma deleteOne_cases:
  "snd (deleteOne code coll) = coll \<or>
   (\<exists>i<length coll. snd (deleteOne code coll) = take i coll @ drop (Suc i) coll)"
proof (cases "code \<in> shortCode ` set coll")
  case True
  from first_match[OF True] show ?thesis by (metis snd_conv)
next
  case False
  then show ?thesis by (simp add: deleteOne_no_match)
qed

lemma updateOne_set:
  "set (snd (updateOne code upd coll)) \<subseteq> set coll \<union> upd ` set coll"
  by (induction coll) (auto split: prod.splits)

lemma deleteOne_set: "set (snd (deleteOne code coll)) \<subseteq> set coll"
  by (induction coll) (auto split: prod.splits)

lemma post_shorten_store:
  "snd (post_shorten e body_url coll) = coll \<or>
   (\<exists>m. snd (post_shorten e body_url coll) = coll @ [m] \<and> clicks m = 0)"
  by (simp add: post_shorten_def insertOne_def Let_def del: js_not.simps)

lemma get_redirect_store: "snd (get_redirect str code coll) = coll \<or>
   snd (get_redirect str code coll) = snd (updateOne code inc_clicks coll)"
  by (simp add: get_redirect_def Let_def split: option.splits)

lemma put_shorten_store: "snd (put_shorten code body_url coll) = coll \<or>
   snd (put_shorten code body_url coll) = snd (updateOne code (set_url (the body_url)) coll)"
  by (simp add: put_shorten_def del: js_not.simps split: prod.splits)

lemma delete_shorten_store: "snd (delete_shorten code coll) = snd (deleteOne code coll)"
  by (simp add: delete_shorten_def split: prod.splits)

lemma get_stats_store: "snd (get_stats code coll) = coll"
  by (simp add: get_stats_def split: option.splits)

lemma handle_nonneg:
  assumes "\<forall>m \<in> set coll. 0 \<le> clicks m"
  shows "\<forall>m \<in> set (snd (handle str r coll)). 0 \<le> clicks m"
proof (cases r)
  case (Create e b)
  from post_shorten_store[of e b coll] assms show ?thesis unfolding Create by auto
next
  case (Visit code)
  have "\<forall>m \<in> set (snd (updateOne code inc_clicks coll)). 0 \<le> clicks m"
    using updateOne_set[of code inc_clicks coll] assms by (auto simp: inc_clicks_def)
  with get_redirect_store[of str code coll] assms show ?thesis unfolding Visit by auto
next
  case (Update code b)
  have "\<forall>m \<in> set (snd (updateOne code (set_url (the b)) coll)). 0 \<le> clicks m"
    using updateOne_set[of code "set_url (the b)" coll] assms by (auto simp: set_url_def)
  with put_shorten_store[of code b coll] assms show ?thesis unfolding Update by auto
next
  case (Delete code)
  from deleteOne_set[of code coll] assms show ?thesis
    unfolding Delete by (auto simp: delete_shorten_store)
next
  case (Stats code)
  with assms show ?thesis by (simp add: get_stats_store)
next
  case Root
  with assms show ?thesis by (simp add: get_root_def)
qed

lemma serve_nonneg:
  "\<forall>m \<in> set coll. 0 \<le> clicks m \<Longrightarrow> \<forall>m \<in> set (serve str reqs coll). 0 \<le> clicks m"
proof (induction reqs arbitrary: coll)
  case Nil
  then show ?case by simp
next
  case (Cons r rs)
  from Cons.IH[OF handle_nonneg[OF Cons.prems, of str r]] show ?case by simp
qed

lemma handle_clicks_step:
  "(\<exists>m. snd (handle str r coll) = coll @ [m] \<and> clicks m = 0) \<or>
   (length (snd (handle str r coll)) = length coll \<and>
    (\<forall>i<length coll. clicks (snd (handle str r coll) ! i) = clicks (coll ! i) \<or>
                      clicks (snd (handle str r coll) ! i) = clicks (coll ! i) + 1)) \<or>
   (\<exists>i<length coll. snd (handle str r coll) = take i coll @ drop (Suc i) coll)"
proof (cases r)
  case (Create e b)
  from post_shorten_store[of e b coll] show ?thesis unfolding Create by auto
next
  case (Visit code)
  have "length (snd (updateOne code inc_clicks coll)) = length coll \<and>
    (\<forall>i<length coll. clicks (snd (updateOne code inc_clicks coll) ! i) = clicks (coll ! i) \<or>
        clicks (snd (updateOne code inc_clicks coll) ! i) = clicks (coll ! i) + 1)"
    using updateOne_cases[of code inc_clicks coll]
    by (auto simp: inc_clicks_def nth_list_update)
  with get_redirect_store[of str code coll] show ?thesis unfolding Visit by auto
next
  case (Update code b)
  have "length (snd (updateOne code (set_url (the b)) coll)) = length coll \<and>
    (\<forall>i<length coll. clicks (snd (updateOne code (set_url (the b)) coll) ! i) = clicks (coll ! i))"
    using updateOne_cases[of code "set_url (the b)" coll]
    by (auto simp: set_url_def nth_list_update)
  with put_shorten_store[of code b coll] show ?thesis unfolding Update by auto
next
  case (Delete code)
  from deleteOne_cases[of code coll] show ?thesis
    unfolding Delete by (auto simp: delete_shorten_store)
next
  case (Stats code)
  then show ?thesis by (simp add: get_stats_store)
next
  case Root
  then show ?thesis by (simp add: get_root_def)
qed

section \<open>Facts about the example data\<close>

lemmas example_defs = example_env1_def example_env2_def example_m1_def example_m2_def
  example_m3_def example_store_def example_lf_url_def

lemma length_chars: "length chars = 62"
  by (simp add: chars_def)

lemma example_half_index:
  "double_floor (double_mul example_half (double_of_nat (length chars))) = 31"
proof -
  have a: "excess_bits 62 = 0" by (simp add: excess_bits.simps)
  have b: "round_shift 62 0 = 62" by (simp add: round_shift_def)
  have "double_mul example_half (double_of_nat 62) = \<lparr>mantissa = 62, exponent = - 1\<rparr>"
    by (simp add: double_mul_def double_of_nat_def example_half_def a b Let_def)
  then show ?thesis by (simp add: length_chars double_floor_def)
qed

lemma example_code: "generateShortCode (\<lambda>_. example_half) 6 = ''FFFFFF''"
  by (simp add: generateShortCode_def generateShortCode_loop.simps example_half_index)
     (simp add: chars_def charAt_def)

text \<open>
  At \<open>0.5161290322580645\<close> the exact product with 62 lies below 32 and the double
  product is 32: the loop takes the character at index 32.
\<close>

lemma example_double_index:
  "is_double example_double \<and> double_val example_double < 1 \<and>
   double_val example_double * 62 < 32 \<and>
   double_floor (double_mul example_double (double_of_nat (length chars))) = 32"
proof -
  have a: "excess_bits 72057594037927934 = 3" by (simp add: excess_bits.simps)
  have b: "round_shift 72057594037927934 3 = 9007199254740992" by (simp add: round_shift_def)
  have "double_mul example_double (double_of_nat 62) =
      \<lparr>mantissa = 4503599627370496, exponent = - 47\<rparr>"
    by (simp add: double_mul_def double_of_nat_def example_double_def a b Let_def)
  then have "double_floor (double_mul example_double (double_of_nat (length chars))) = 32"
    by (simp add: length_chars double_floor_def)
  moreover have "is_double example_double"
    by (simp add: is_double_def example_double_def)
  moreover have "double_val example_double < 1 \<and> double_val example_double * 62 < 32"
    by (simp add: double_val_def example_double_def)
  ultimately show ?thesis by simp
qed

lemma example_double_code: "generateShortCode (\<lambda>_. example_double) 6 = ''GGGGGG''"
  by (simp add: generateShortCode_def generateShortCode_loop.simps example_double_index)
     (simp add: chars_def charAt_def)

lemma example_env1_random:
  "\<forall>i<6. is_double (random example_env1 i) \<and> double_val (random example_env1 i) < 1"
  by (simp add: example_env1_def example_half_def is_double_def double_val_def)

lemma example_first_Ab:
  assumes "i < length example_store" "shortCode (example_store ! i) = ''Ab3dE9''"
    "\<forall>j<i. shortCode (example_store ! j) \<noteq> ''Ab3dE9''"
  shows "i = 1"
proof -
  have "i = 0 \<or> i = 1 \<or> i = 2" using assms(1) by (auto simp: example_store_def)
  then show ?thesis
  proof (elim disjE)
    assume "i = 0"
    with assms(2) show ?thesis by (simp add: example_defs)
  next
    assume "i = 1"
    then show ?thesis .
  next
    assume "i = 2"
    with assms(3) have "shortCode (example_store ! 1) \<noteq> ''Ab3dE9''" by simp
    then show ?thesis by (simp add: example_defs)
  qed
qed

lemma example_first_Zz:
  assumes "i < length example_store" "shortCode (example_store ! i) = ''Zz0000''"
  shows "i = 0"
proof -
  have "i = 0 \<or> i = 1 \<or> i = 2" using assms(1) by (auto simp: example_store_def)
  then show ?thesis
  proof (elim disjE)
    assume "i = 0"
    then show ?thesis .
  next
    assume "i = 1"
    with assms(2) show ?thesis by (simp add: example_defs)
  next
    assume "i = 2"
    with assms(2) show ?thesis by (simp add: example_defs)
  qed
qed

section \<open>Properties of the header store\<close>




section \<open>The claims\<close>




text \<open>
  Claim C2 (create). For a body whose url is a non-empty string, and a random source that
  returns doubles in \<open>[0, 1)\<close> as \<^verbatim>\<open>Math.random\<close> does,
  \<^verbatim>\<open>POST /api/v1/shorten\<close> appends exactly one document to the collection: its url is
  the given url, its clicks is 0, and its short code has length 6 with every character
  among \<open>chars\<close>, hence alphanumeric; the response is 200 with that short code and the
  same url. The alphabet \<open>chars\<close> has 62 distinct characters.
\<close>

theorem post_shorten_creates:
  assumes "u \<noteq> []"
    and "\<forall>i<6. is_double (random e i) \<and> double_val (random e i) < 1"
  shows "length chars = 62 \<and> distinct chars \<and>
         (\<exists>code. length code = 6 \<and> set code \<subseteq> set chars \<and> (\<forall>c \<in> set code. alnum c) \<and>
           post_shorten e (Some (JStr u)) coll =
             (Json (CreatedBody code (JStr u)) 200,
              coll @ [\<lparr>oid = Some (newId e), shortCode = code, url = JStr u, clicks = 0,
                       createdAt = now e\<rparr>]))"
proof -
  let ?code = "generateShortCode (random e) 6"
  from generateShortCode_props[OF assms(2)]
  have p: "length ?code = 6" "set ?code \<subseteq> set chars" by auto
  then have "\<forall>c \<in> set ?code. alnum c" using chars_alnum by blast
  moreover have "post_shorten e (Some (JStr u)) coll =
             (Json (CreatedBody ?code (JStr u)) 200,
              coll @ [\<lparr>oid = Some (newId e), shortCode = ?code, url = JStr u, clicks = 0,
                       createdAt = now e\<rparr>])"
    using assms(1) by (simp add: post_shorten_def insertOne_def Let_def)
  ultimately show ?thesis using p chars_62 by blast
qed

theorem post_shorten_creates_witness:
  "post_shorten example_env1 (Some (JStr ''https://example.com'')) example_store =
     (Json (CreatedBody ''FFFFFF'' (JStr ''https://example.com'')) 200,
      example_store @
        [\<lparr>oid = Some ''id1'', shortCode = ''FFFFFF'', url = JStr ''https://example.com'',
          clicks = 0, createdAt = 1700000000000\<rparr>])"
proof -
  have u: "''https://example.com'' \<noteq> []" by simp
  from post_shorten_creates[OF u example_env1_random, of example_store] obtain code where
    c: "post_shorten example_env1 (Some (JStr ''https://example.com'')) example_store =
          (Json (CreatedBody code (JStr ''https://example.com'')) 200,
           example_store @
             [\<lparr>oid = Some (newId example_env1), shortCode = code,
               url = JStr ''https://example.com'', clicks = 0, createdAt = now example_env1\<rparr>])"
    by blast
  have "fst (post_shorten example_env1 (Some (JStr ''https://example.com'')) example_store) =
      Json (CreatedBody ''FFFFFF'' (JStr ''https://example.com'')) 200"
    by (simp add: post_shorten_def Let_def example_env1_def example_code)
  with c have "code = ''FFFFFF''" by simp
  with c show ?thesis by (simp add: example_env1_def)
qed

text \<open>
  Claim C3 (delete, then stats). As stated, the claim fails when two documents
  share the short code: \<^verbatim>\<open>deleteOne\<close> removes one of them and the stats lookup finds
  the other. What holds: on a code with at least one matching document, DELETE answers
  200; a following stats request on the same code answers 404 exactly when the code had
  exactly one matching document before the delete, and 200 exactly when it had two or
  more.
\<close>

theorem delete_then_stats:
  assumes "code \<in> shortCode ` set coll"
  shows "status (fst (delete_shorten code coll)) = 200 \<and>
         (status (fst (get_stats code (snd (delete_shorten code coll)))) = 404
            \<longleftrightarrow> count_code code coll = 1) \<and>
         (status (fst (get_stats code (snd (delete_shorten code coll)))) = 200
            \<longleftrightarrow> 2 \<le> count_code code coll)"
proof -
  let ?coll' = "snd (delete_shorten code coll)"
  have n: "1 \<le> count_code code coll" using assms count_code_pos_iff[of code coll] by blast
  have s: "?coll' = snd (deleteOne code coll)"
    by (simp add: delete_shorten_def split: prod.splits)
  from first_match[OF assms] obtain i where "deleteOne code coll = (1, take i coll @ drop (Suc i) coll)"
    by blast
  then have d: "status (fst (delete_shorten code coll)) = 200"
    by (simp add: delete_shorten_def)
  have c: "count_code code ?coll' = count_code code coll - 1"
    unfolding s by (rule deleteOne_count[OF assms])
  have st: "status (fst (get_stats code ?coll')) = (if code \<in> shortCode ` set ?coll' then 200 else 404)"
  proof (cases "code \<in> shortCode ` set ?coll'")
    case True
    then have "findOne code ?coll' \<noteq> None" by (simp add: findOne_None_iff)
    then show ?thesis using True by (auto simp: get_stats_def)
  next
    case False
    then have "findOne code ?coll' = None" by (simp add: findOne_None_iff)
    then show ?thesis using False by (simp add: get_stats_def)
  qed
  have m: "code \<in> shortCode ` set ?coll' \<longleftrightarrow> 2 \<le> count_code code coll"
    using count_code_pos_iff[of code ?coll'] c by linarith
  show ?thesis using d st m n by auto
qed

theorem delete_then_stats_witness:
  "status (fst (delete_shorten ''Zz0000'' example_store)) = 200 \<and>
   status (fst (get_stats ''Zz0000'' (snd (delete_shorten ''Zz0000'' example_store)))) = 404 \<and>
   count_code ''Zz0000'' example_store = 1 \<and>
   status (fst (delete_shorten ''Ab3dE9'' example_store)) = 200 \<and>
   status (fst (get_stats ''Ab3dE9'' (snd (delete_shorten ''Ab3dE9'' example_store)))) = 200 \<and>
   count_code ''Ab3dE9'' example_store = 2"
proof -
  have z: "''Zz0000'' \<in> shortCode ` set example_store" by (simp add: example_defs)
  have a: "''Ab3dE9'' \<in> shortCode ` set example_store" by (simp add: example_defs)
  have cz: "count_code ''Zz0000'' example_store = 1" by (simp add: count_code_def example_defs)
  have ca: "count_code ''Ab3dE9'' example_store = 2" by (simp add: count_code_def example_defs)
  from delete_then_stats[OF z] delete_then_stats[OF a] cz ca show ?thesis by simp
qed

theorem delete_then_stats_counterexample:
  "''FFFFFF'' \<in> shortCode ` set
      (serve example_str [Create example_env1 (Some (JStr ''https://example.com'')),
              Create example_env2 (Some (JStr ''https://example.org''))] []) \<and>
   status (fst (delete_shorten ''FFFFFF''
      (serve example_str [Create example_env1 (Some (JStr ''https://example.com'')),
              Create example_env2 (Some (JStr ''https://example.org''))] []))) = 200 \<and>
   fst (get_stats ''FFFFFF'' (snd (delete_shorten ''FFFFFF''
      (serve example_str [Create example_env1 (Some (JStr ''https://example.com'')),
              Create example_env2 (Some (JStr ''https://example.org''))] [])))) =
     Json (StatsBody ''FFFFFF'' (JStr ''https://example.org'') 0 1700000000777) 200 \<and>
   status (fst (get_stats ''FFFFFF'' (snd (delete_shorten ''FFFFFF''
      (serve example_str [Create example_env1 (Some (JStr ''https://example.com'')),
              Create example_env2 (Some (JStr ''https://example.org''))] []))))) \<noteq> 404"
  by (simp add: post_shorten_def Let_def insertOne_def example_env1_def
      example_env2_def example_code delete_shorten_def get_stats_def findOne_def)

text \<open>
  Claim C4 (update, frame). For a non-empty url and a short code with a matching
  document, \<^verbatim>\<open>PUT /api/v1/shorten/:shortCode\<close> answers 200 and the collection
  afterwards is the old one with the url of the first matching document replaced: that
  document keeps its clicks and createdAt (and its short code and identifier), and every
  other document is unchanged.
\<close>

theorem put_shorten_updates_url_only:
  assumes "u \<noteq> []" and "code \<in> shortCode ` set coll"
  shows "\<exists>i<length coll. shortCode (coll ! i) = code \<and> (\<forall>j<i. shortCode (coll ! j) \<noteq> code) \<and>
           put_shorten code (Some (JStr u)) coll =
             (Json (MessageBody msg_updated) 200, coll[i := (coll ! i)\<lparr>url := JStr u\<rparr>]) \<and>
           length (snd (put_shorten code (Some (JStr u)) coll)) = length coll \<and>
           url (snd (put_shorten code (Some (JStr u)) coll) ! i) = JStr u \<and>
           clicks (snd (put_shorten code (Some (JStr u)) coll) ! i) = clicks (coll ! i) \<and>
           createdAt (snd (put_shorten code (Some (JStr u)) coll) ! i) = createdAt (coll ! i) \<and>
           shortCode (snd (put_shorten code (Some (JStr u)) coll) ! i) = shortCode (coll ! i) \<and>
           oid (snd (put_shorten code (Some (JStr u)) coll) ! i) = oid (coll ! i) \<and>
           (\<forall>j<length coll. j \<noteq> i \<longrightarrow> snd (put_shorten code (Some (JStr u)) coll) ! j = coll ! j)"
proof -
  from first_match[OF assms(2)] obtain i where i: "i < length coll" "shortCode (coll ! i) = code"
    "\<forall>j<i. shortCode (coll ! j) \<noteq> code"
    "\<forall>upd. updateOne code upd coll = (1, coll[i := upd (coll ! i)])" by blast
  have p: "put_shorten code (Some (JStr u)) coll =
             (Json (MessageBody msg_updated) 200, coll[i := (coll ! i)\<lparr>url := JStr u\<rparr>])"
    using assms(1) i(4) by (simp add: put_shorten_def set_url_def)
  show ?thesis
    by (rule exI[of _ i]) (use i(1,2,3) p in simp)
qed

theorem put_shorten_updates_url_only_witness:
  "put_shorten ''Ab3dE9'' (Some (JStr ''https://changed.example'')) example_store =
     (Json (MessageBody msg_updated) 200,
      [example_m2, example_m1\<lparr>url := JStr ''https://changed.example''\<rparr>, example_m3])"
proof -
  have u: "''https://changed.example'' \<noteq> []" by simp
  have y: "''Ab3dE9'' \<in> shortCode ` set example_store" by (simp add: example_defs)
  from put_shorten_updates_url_only[OF u y]
  obtain i where i: "i < length example_store" "shortCode (example_store ! i) = ''Ab3dE9''"
    "\<forall>j<i. shortCode (example_store ! j) \<noteq> ''Ab3dE9''"
    "put_shorten ''Ab3dE9'' (Some (JStr ''https://changed.example'')) example_store =
       (Json (MessageBody msg_updated) 200,
        example_store[i := (example_store ! i)\<lparr>url := JStr ''https://changed.example''\<rparr>])"
    by blast
  have "i = 1" using example_first_Ab[OF i(1,2,3)] .
  with i(4) show ?thesis by (simp add: example_defs)
qed

text \<open>
  Claim C5 (stats). If no document matches the short code, the stats request answers
  404; otherwise it answers 200 with exactly the shortCode, url, clicks and createdAt of
  the first matching document. The collection is unchanged in both cases.
\<close>

theorem get_stats_correct:
  "(code \<notin> shortCode ` set coll \<longrightarrow>
      get_stats code coll = (Json (ErrorBody err_not_found) 404, coll)) \<and>
   (code \<in> shortCode ` set coll \<longrightarrow>
      (\<exists>i<length coll. shortCode (coll ! i) = code \<and> (\<forall>j<i. shortCode (coll ! j) \<noteq> code) \<and>
         get_stats code coll =
           (Json (StatsBody (shortCode (coll ! i)) (url (coll ! i)) (clicks (coll ! i))
                    (createdAt (coll ! i))) 200, coll)))"
proof (intro conjI impI)
  assume "code \<notin> shortCode ` set coll"
  then have "findOne code coll = None" by (simp add: findOne_None_iff)
  then show "get_stats code coll = (Json (ErrorBody err_not_found) 404, coll)"
    by (simp add: get_stats_def)
next
  assume a: "code \<in> shortCode ` set coll"
  from first_match[OF a] obtain i where i: "i < length coll" "shortCode (coll ! i) = code"
    "\<forall>j<i. shortCode (coll ! j) \<noteq> code" "findOne code coll = Some (coll ! i)" by blast
  have "get_stats code coll =
           (Json (StatsBody (shortCode (coll ! i)) (url (coll ! i)) (clicks (coll ! i))
                    (createdAt (coll ! i))) 200, coll)"
    using i(4) by (simp add: get_stats_def)
  with i(1,2,3) show "\<exists>i<length coll. shortCode (coll ! i) = code \<and> (\<forall>j<i. shortCode (coll ! j) \<noteq> code) \<and>
         get_stats code coll =
           (Json (StatsBody (shortCode (coll ! i)) (url (coll ! i)) (clicks (coll ! i))
                    (createdAt (coll ! i))) 200, coll)"
    by blast
qed

theorem get_stats_correct_witness:
  "get_stats ''nope'' example_store = (Json (ErrorBody err_not_found) 404, example_store) \<and>
   get_stats ''Zz0000'' example_store =
     (Json (StatsBody ''Zz0000'' (JStr ''https://example.org'') 7 1700000000500) 200,
      example_store)"
proof -
  have n: "''nope'' \<notin> shortCode ` set example_store" by (simp add: example_defs)
  have z: "''Zz0000'' \<in> shortCode ` set example_store" by (simp add: example_defs)
  from get_stats_correct[of "''nope''" example_store] n
  have a: "get_stats ''nope'' example_store = (Json (ErrorBody err_not_found) 404, example_store)"
    by blast
  from get_stats_correct[of "''Zz0000''" example_store] z
  obtain i where i: "i < length example_store" "shortCode (example_store ! i) = ''Zz0000''"
    "get_stats ''Zz0000'' example_store =
       (Json (StatsBody (shortCode (example_store ! i)) (url (example_store ! i))
          (clicks (example_store ! i)) (createdAt (example_store ! i))) 200, example_store)"
    by blast
  have "i = 0" using example_first_Zz[OF i(1,2)] .
  with i(3) a show ?thesis by (simp add: example_defs)
qed

text \<open>
  Claim C6 (create, validation). The claim says that the answer is 400 exactly when the
  url of the body is missing or the empty string. That fails for a body whose url is
  \<open>0\<close>, \<^verbatim>\<open>false\<close> or \<^verbatim>\<open>null\<close>: the url is there, it is not the empty string,
  and the answer is 400, since the test is \<^verbatim>\<open>!url\<close>. What holds:
  \<^verbatim>\<open>POST /api/v1/shorten\<close> answers 400 if and only if the url of the body is missing
  or is \<^verbatim>\<open>null\<close>, \<^verbatim>\<open>false\<close>, zero or the empty string; in that case the response
  is the JSON error message and the collection is unchanged.
\<close>

theorem post_shorten_400_iff:
  "(status (fst (post_shorten e body_url coll)) = 400 \<longleftrightarrow>
      body_url = None \<or> body_url = Some JNull \<or> body_url = Some (JBool False) \<or>
      body_url = Some (JNum (Finite 0)) \<or> body_url = Some (JStr [])) \<and>
   (status (fst (post_shorten e body_url coll)) = 400 \<longrightarrow>
      post_shorten e body_url coll = (Json (ErrorBody err_url_required) 400, coll))"
proof -
  have f: "js_not body_url \<longleftrightarrow>
      body_url = None \<or> body_url = Some JNull \<or> body_url = Some (JBool False) \<or>
      body_url = Some (JNum (Finite 0)) \<or> body_url = Some (JStr [])"
  proof (cases body_url)
    case None
    then show ?thesis by simp
  next
    case (Some v)
    then show ?thesis by (cases v) simp_all
  qed
  show ?thesis
  proof (cases "js_not body_url")
    case True
    then have "post_shorten e body_url coll = (Json (ErrorBody err_url_required) 400, coll)"
      by (simp add: post_shorten_def)
    with True f show ?thesis by simp
  next
    case False
    then have "status (fst (post_shorten e body_url coll)) = 200"
      by (simp add: post_shorten_def Let_def)
    with False f show ?thesis by simp
  qed
qed

theorem post_shorten_400_iff_witness:
  "post_shorten example_env1 None example_store =
     (Json (ErrorBody err_url_required) 400, example_store) \<and>
   post_shorten example_env1 (Some (JStr [])) example_store =
     (Json (ErrorBody err_url_required) 400, example_store) \<and>
   status (fst (post_shorten example_env1 (Some (JStr ''https://example.com'')) example_store))
     \<noteq> 400"
  using post_shorten_400_iff[where e = example_env1 and body_url = None and coll = example_store]
    post_shorten_400_iff[where e = example_env1 and body_url = "Some (JStr [])"
      and coll = example_store]
    post_shorten_400_iff[where e = example_env1
      and body_url = "Some (JStr ''https://example.com'')" and coll = example_store]
  by simp

theorem post_shorten_400_counterexample:
  "status (fst (post_shorten example_env1 (Some (JNum (Finite 0))) example_store)) = 400 \<and>
   Some (JNum (Finite 0)) \<noteq> None \<and> Some (JNum (Finite 0)) \<noteq> Some (JStr []) \<and>
   status (fst (post_shorten example_env1 (Some (JBool False)) example_store)) = 400 \<and>
   Some (JBool False) \<noteq> None \<and> Some (JBool False) \<noteq> Some (JStr []) \<and>
   status (fst (post_shorten example_env1 (Some JNull) example_store)) = 400 \<and>
   Some JNull \<noteq> None \<and> Some JNull \<noteq> Some (JStr [])"
  by (simp add: post_shorten_def)

text \<open>
  Claim C7 (update, unknown code). For a non-empty url and a short code that no
  document has, the update request answers 404 and the collection is unchanged.
\<close>

theorem put_shorten_unknown_404:
  assumes "u \<noteq> []" and "code \<notin> shortCode ` set coll"
  shows "put_shorten code (Some (JStr u)) coll = (Json (ErrorBody err_not_found) 404, coll)"
  using assms by (simp add: put_shorten_def updateOne_no_match)

theorem put_shorten_unknown_404_witness:
  "put_shorten ''nope'' (Some (JStr ''https://changed.example'')) example_store =
     (Json (ErrorBody err_not_found) 404, example_store)"
proof -
  have u: "''https://changed.example'' \<noteq> []" by simp
  have n: "''nope'' \<notin> shortCode ` set example_store" by (simp add: example_defs)
  from put_shorten_unknown_404[OF u n] show ?thesis .
qed

text \<open>
  Claim C8 (update, validation first). When the url of the body is missing or
  empty, the update request answers 400 whatever the short code and the collection are,
  so also for a code that no document has; the collection is unchanged.
\<close>

theorem put_shorten_validates_first:
  assumes "body_url = None \<or> body_url = Some (JStr [])"
  shows "put_shorten code body_url coll = (Json (ErrorBody err_url_required) 400, coll)"
  using assms by (auto simp: put_shorten_def)

theorem put_shorten_validates_first_witness:
  "put_shorten ''nope'' None example_store =
     (Json (ErrorBody err_url_required) 400, example_store) \<and>
   put_shorten ''Ab3dE9'' (Some (JStr [])) example_store =
     (Json (ErrorBody err_url_required) 400, example_store)"
proof -
  have a: "(None :: json option) = None \<or> None = Some (JStr [])" by simp
  have b: "Some (JStr []) = None \<or> Some (JStr []) = Some (JStr [])" by simp
  from put_shorten_validates_first[OF a, of "''nope''" example_store]
    put_shorten_validates_first[OF b, of "''Ab3dE9''" example_store]
  show ?thesis by simp
qed

text \<open>
  Claim C9 (clicks never negative). In every collection reached from the empty
  one by any sequence of requests, every document has \<open>clicks \<ge> 0\<close>. And one request,
  on any collection, either appends one document with clicks 0, or keeps the number of
  documents and leaves each document's clicks as it was or one higher, or removes one
  document and keeps the others as they were: no request lowers a counter.
\<close>

theorem clicks_nonneg_reachable:
  "(\<forall>m \<in> set (serve str reqs []). 0 \<le> clicks m) \<and>
   ((\<exists>m. snd (handle str r coll) = coll @ [m] \<and> clicks m = 0) \<or>
    (length (snd (handle str r coll)) = length coll \<and>
     (\<forall>i<length coll. clicks (snd (handle str r coll) ! i) = clicks (coll ! i) \<or>
                       clicks (snd (handle str r coll) ! i) = clicks (coll ! i) + 1)) \<or>
    (\<exists>i<length coll. snd (handle str r coll) = take i coll @ drop (Suc i) coll))"
  using serve_nonneg[where coll = "[]" and str = str and reqs = reqs]
    handle_clicks_step[where str = str and r = r and coll = coll] by simp

theorem clicks_nonneg_reachable_witness:
  "serve example_str
     [Create example_env1 (Some (JStr ''https://example.com'')), Visit ''FFFFFF'',
      Visit ''FFFFFF''] [] =
     [\<lparr>oid = Some ''id1'', shortCode = ''FFFFFF'', url = JStr ''https://example.com'',
       clicks = 2, createdAt = 1700000000000\<rparr>] \<and>
   0 \<le> clicks \<lparr>oid = Some ''id1'', shortCode = ''FFFFFF'', url = JStr ''https://example.com'',
       clicks = 2, createdAt = 1700000000000\<rparr>"
proof -
  let ?reqs = "[Create example_env1 (Some (JStr ''https://example.com'')), Visit ''FFFFFF'',
      Visit ''FFFFFF'']"
  let ?m = "\<lparr>oid = Some ''id1'', shortCode = ''FFFFFF'', url = JStr ''https://example.com'',
       clicks = 2, createdAt = 1700000000000\<rparr>"
  have s: "serve example_str ?reqs [] = [?m]"
    by (simp add: post_shorten_def Let_def insertOne_def example_env1_def
      example_code get_redirect_def findOne_def inc_clicks_def)
  then have "?m \<in> set (serve example_str ?reqs [])" by simp
  with clicks_nonneg_reachable[where str = example_str and reqs = ?reqs]
  have "0 \<le> clicks ?m" by blast
  with s show ?thesis by simp
qed

text \<open>
  Claim C10 (delete removes at most one). When no document has the code, DELETE
  answers 404 and the collection is unchanged. When \<open>n \<ge> 1\<close> documents have it, DELETE
  answers 200, \<open>n - 1\<close> of them remain, and the collection has lost exactly one document,
  which had that code. The documents with other codes are the same before and after, in
  the same order.
\<close>

theorem delete_removes_one:
  "(count_code code coll = 0 \<longrightarrow>
      delete_shorten code coll = (Json (ErrorBody err_not_found) 404, coll)) \<and>
   (1 \<le> count_code code coll \<longrightarrow>
      fst (delete_shorten code coll) = Json (MessageBody msg_deleted) 200 \<and>
      count_code code (snd (delete_shorten code coll)) = count_code code coll - 1 \<and>
      length (snd (delete_shorten code coll)) = length coll - 1 \<and>
      (\<exists>i<length coll. shortCode (coll ! i) = code \<and>
         snd (delete_shorten code coll) = take i coll @ drop (Suc i) coll)) \<and>
   filter (\<lambda>m. shortCode m \<noteq> code) (snd (delete_shorten code coll)) =
     filter (\<lambda>m. shortCode m \<noteq> code) coll"
proof (intro conjI impI)
  assume "count_code code coll = 0"
  then have "code \<notin> shortCode ` set coll" using count_code_pos_iff[of code coll] by simp
  then show "delete_shorten code coll = (Json (ErrorBody err_not_found) 404, coll)"
    by (simp add: delete_shorten_def deleteOne_no_match)
next
  have s: "snd (delete_shorten code coll) = snd (deleteOne code coll)"
    by (simp add: delete_shorten_def split: prod.splits)
  show "filter (\<lambda>m. shortCode m \<noteq> code) (snd (delete_shorten code coll)) =
     filter (\<lambda>m. shortCode m \<noteq> code) coll"
    unfolding s by (rule deleteOne_others)
  assume "1 \<le> count_code code coll"
  then have a: "code \<in> shortCode ` set coll" using count_code_pos_iff[of code coll] by blast
  from first_match[OF a] obtain i where i: "i < length coll" "shortCode (coll ! i) = code"
    "deleteOne code coll = (1, take i coll @ drop (Suc i) coll)" by blast
  show "fst (delete_shorten code coll) = Json (MessageBody msg_deleted) 200"
    using i(3) by (simp add: delete_shorten_def)
  show "count_code code (snd (delete_shorten code coll)) = count_code code coll - 1"
    unfolding s by (rule deleteOne_count[OF a])
  show "length (snd (delete_shorten code coll)) = length coll - 1"
    unfolding s using i(1,3) by simp
  show "\<exists>i<length coll. shortCode (coll ! i) = code \<and>
         snd (delete_shorten code coll) = take i coll @ drop (Suc i) coll"
    unfolding s using i by auto
qed

theorem delete_removes_one_witness:
  "count_code ''Ab3dE9'' example_store = 2 \<and>
   fst (delete_shorten ''Ab3dE9'' example_store) = Json (MessageBody msg_deleted) 200 \<and>
   count_code ''Ab3dE9'' (snd (delete_shorten ''Ab3dE9'' example_store)) = 1 \<and>
   length (snd (delete_shorten ''Ab3dE9'' example_store)) = 2 \<and>
   count_code ''nope'' example_store = 0 \<and>
   delete_shorten ''nope'' example_store = (Json (ErrorBody err_not_found) 404, example_store)"
proof -
  have ca: "count_code ''Ab3dE9'' example_store = 2" by (simp add: count_code_def example_defs)
  have cn: "count_code ''nope'' example_store = 0" by (simp add: count_code_def example_defs)
  have l: "length example_store = 3" by (simp add: example_store_def)
  from delete_removes_one[of "''Ab3dE9''" example_store] delete_removes_one[of "''nope''" example_store]
    ca cn l show ?thesis by simp
qed

end
